theory Spec2Isabelle
  imports Main
begin

section \<open>Data model (backend/src/types/task.ts)\<close>

text \<open>
  The status enumeration \<open>z.enum(['pending', 'done'])\<close> and the three object shapes that
  the Zod schemas infer: \<open>Task\<close>, \<open>CreateTask\<close> (a task without its id) and
  \<open>UpdateTask\<close> (the status alone). The field \<open>id\<close> is called \<open>task_id\<close> because
  \<open>id\<close> is the identity function of HOL; the fields of the two smaller shapes carry a prefix
  because record fields are global names.
\<close>

datatype TaskStatus = Pending | Done

record Task =
  task_id :: string
  title :: string
  description :: string
  status :: TaskStatus

record CreateTask =
  ct_title :: string
  ct_description :: string
  ct_status :: TaskStatus

record UpdateTask =
  ut_status :: TaskStatus

section \<open>The task store (backend/src/services/taskService.ts)\<close>

text \<open>
  \<open>Number.prototype.toString\<close> on the id counter. The counter is a non-negative integer
  that starts at 2 and grows by one per created task; it is modelled as a natural number,
  which is what a JavaScript number is below \<open>2^53\<close>, and its string form is its decimal
  numeral.
\<close>

definition digit_char :: "nat \<Rightarrow> char" where
  "digit_char d = char_of (48 + d)"

fun toString :: "nat \<Rightarrow> string" where
  "toString n = (if n < 10 then [digit_char n] else toString (n div 10) @ [digit_char (n mod 10)])"

declare toString.simps [simp del]

text \<open>\<open>Array.prototype.findIndex\<close>: the first index whose element satisfies the predicate, or -1.\<close>

fun findIndex :: "('a \<Rightarrow> bool) \<Rightarrow> 'a list \<Rightarrow> int" where
  "findIndex P [] = -1"
| "findIndex P (x # xs) =
     (if P x then 0 else (let r = findIndex P xs in if r = -1 then -1 else r + 1))"

text \<open>\<open>xs.splice(i, 1)\<close> for an index inside the array: the element at \<open>i\<close> is taken out.\<close>

definition splice1 :: "nat \<Rightarrow> 'a list \<Rightarrow> 'a list" where
  "splice1 i xs = take i xs @ drop (Suc i) xs"

text \<open>The object spreads \<open>{ ...task, ...updateData }\<close> for the two shapes of update data.\<close>

definition spread_UpdateTask :: "Task \<Rightarrow> UpdateTask \<Rightarrow> Task" where
  "spread_UpdateTask t u = t\<lparr>status := ut_status u\<rparr>"

definition spread_CreateTask :: "Task \<Rightarrow> CreateTask \<Rightarrow> Task" where
  "spread_CreateTask t u =
     t\<lparr>title := ct_title u, description := ct_description u, status := ct_status u\<rparr>"

text \<open>The state of the singleton \<open>TaskService\<close>: its two private fields.\<close>

record TaskService =
  tasks :: "Task list"
  nextId :: nat

definition initialService :: TaskService where
  "initialService =
     \<lparr>tasks = [\<lparr>task_id = ''1'', title = ''Sample Task'',
                 description = ''This is a sample task'', status = Pending\<rparr>],
      nextId = 2\<rparr>"



definition createTask :: "CreateTask \<Rightarrow> TaskService \<Rightarrow> Task \<times> TaskService" where
  "createTask taskData s =
     (let newTask = \<lparr>task_id = toString (nextId s), title = ct_title taskData,
                     description = ct_description taskData, status = ct_status taskData\<rparr>
      in (newTask, \<lparr>tasks = tasks s @ [newTask], nextId = nextId s + 1\<rparr>))"

definition deleteTask :: "string \<Rightarrow> TaskService \<Rightarrow> bool \<times> TaskService" where
  "deleteTask i s =
     (let taskIndex = findIndex (\<lambda>task. task_id task = i) (tasks s)
      in if taskIndex = -1 then (False, s)
         else (True, s\<lparr>tasks := splice1 (nat taskIndex) (tasks s)\<rparr>))"

definition updateTaskStatus :: "string \<Rightarrow> UpdateTask \<Rightarrow> TaskService \<Rightarrow> Task option \<times> TaskService" where
  "updateTaskStatus i updateData s =
     (let taskIndex = findIndex (\<lambda>task. task_id task = i) (tasks s)
      in if taskIndex = -1 then (None, s)
         else (let updated = spread_UpdateTask (tasks s ! nat taskIndex) updateData
               in (Some updated, s\<lparr>tasks := (tasks s)[nat taskIndex := updated]\<rparr>)))"

definition updateTask :: "string \<Rightarrow> CreateTask \<Rightarrow> TaskService \<Rightarrow> Task option \<times> TaskService" where
  "updateTask i updateData s =
     (let taskIndex = findIndex (\<lambda>task. task_id task = i) (tasks s)
      in if taskIndex = -1 then (None, s)
         else (let updated = spread_CreateTask (tasks s ! nat taskIndex) updateData
               in (Some updated, s\<lparr>tasks := (tasks s)[nat taskIndex := updated]\<rparr>)))"

text \<open>
  A run of the store: the four mutating operations as a datatype, one step, and a sequence
  folded from the left. \<open>assigned\<close> collects, in order, the ids that \<open>createTask\<close>
  hands out along a run.
\<close>

datatype Op =
  Create CreateTask
| UpdateStatus string UpdateTask
| Update string CreateTask
| Delete string

fun apply_op :: "Op \<Rightarrow> TaskService \<Rightarrow> TaskService" where
  "apply_op (Create d) s = snd (createTask d s)"
| "apply_op (UpdateStatus i u) s = snd (updateTaskStatus i u s)"
| "apply_op (Update i d) s = snd (updateTask i d s)"
| "apply_op (Delete i) s = snd (deleteTask i s)"

fun run :: "Op list \<Rightarrow> TaskService \<Rightarrow> TaskService" where
  "run [] s = s"
| "run (op # ops) s = run ops (apply_op op s)"

fun assigned :: "Op list \<Rightarrow> TaskService \<Rightarrow> string list" where
  "assigned [] s = []"
| "assigned (Create d # ops) s =
     task_id (fst (createTask d s)) # assigned ops (apply_op (Create d) s)"
| "assigned (op # ops) s = assigned ops (apply_op op s)"

section \<open>Request bodies and the Zod schemas (backend/src/types/task.ts)\<close>

text \<open>
  A request body as \<open>express.json()\<close> hands it over: a parsed JSON value. Numbers are not
  inspected by any schema of this program, so their payload is an integer here. In an
  object a repeated key keeps its last value, as \<open>JSON.parse\<close> does; \<open>get_prop\<close> is the
  property read, \<open>None\<close> standing for \<open>undefined\<close>.
\<close>

datatype json =
  JNull
| JBool bool
| JNum int
| JStr string
| JArr "json list"
| JObj "(string \<times> json) list"

fun get_prop :: "json \<Rightarrow> string \<Rightarrow> json option" where
  "get_prop (JObj kvs) k = map_of (rev kvs) k"
| "get_prop _ k = None"

text \<open>
  Zod reports a failed parse as a list of issues, each with a code and the path of the
  offending field. \<open>z.string().min(1)\<close> wants a string of at least one character;
  \<open>z.enum(['pending', 'done'])\<close> one of the two literals; \<open>.default('pending')\<close>
  replaces an absent (undefined) input and nothing else. \<open>z.object\<close> parses every field of
  its shape, gathers the issues of all of them, and drops the keys it does not know.
\<close>

datatype ZodIssueCode = invalid_type | too_small | invalid_enum_value

record ZodIssue =
  code :: ZodIssueCode
  path :: "string list"

definition z_string_min1 :: "string \<Rightarrow> json option \<Rightarrow> ZodIssue list + string" where
  "z_string_min1 k v =
     (case v of
        Some (JStr x) \<Rightarrow>
          if length x < 1 then Inl [\<lparr>code = too_small, path = [k]\<rparr>] else Inr x
      | _ \<Rightarrow> Inl [\<lparr>code = invalid_type, path = [k]\<rparr>])"

definition z_status_enum :: "string \<Rightarrow> json option \<Rightarrow> ZodIssue list + TaskStatus" where
  "z_status_enum k v =
     (case v of
        Some (JStr x) \<Rightarrow>
          if x = ''pending'' then Inr Pending
          else if x = ''done'' then Inr Done
          else Inl [\<lparr>code = invalid_enum_value, path = [k]\<rparr>]
      | _ \<Rightarrow> Inl [\<lparr>code = invalid_type, path = [k]\<rparr>])"

definition z_status_default :: "string \<Rightarrow> json option \<Rightarrow> ZodIssue list + TaskStatus" where
  "z_status_default k v = (case v of None \<Rightarrow> Inr Pending | Some x \<Rightarrow> z_status_enum k v)"

definition issues_of :: "ZodIssue list + 'a \<Rightarrow> ZodIssue list" where
  "issues_of r = (case r of Inl iss \<Rightarrow> iss | Inr x \<Rightarrow> [])"

definition CreateTaskSchema_parse :: "json \<Rightarrow> ZodIssue list + CreateTask" where
  "CreateTaskSchema_parse b =
     (case b of
        JObj kvs \<Rightarrow>
          (let t = z_string_min1 ''title'' (get_prop b ''title'');
               d = z_string_min1 ''description'' (get_prop b ''description'');
               s = z_status_default ''status'' (get_prop b ''status'')
           in case (t, d, s) of
                (Inr t', Inr d', Inr s') \<Rightarrow>
                  Inr \<lparr>ct_title = t', ct_description = d', ct_status = s'\<rparr>
              | _ \<Rightarrow> Inl (issues_of t @ issues_of d @ issues_of s))
      | _ \<Rightarrow> Inl [\<lparr>code = invalid_type, path = []\<rparr>])"

definition UpdateTaskSchema_parse :: "json \<Rightarrow> ZodIssue list + UpdateTask" where
  "UpdateTaskSchema_parse b =
     (case b of
        JObj kvs \<Rightarrow>
          (case z_status_enum ''status'' (get_prop b ''status'') of
             Inr s' \<Rightarrow> Inr \<lparr>ut_status = s'\<rparr>
           | Inl iss \<Rightarrow> Inl iss)
      | _ \<Rightarrow> Inl [\<lparr>code = invalid_type, path = []\<rparr>])"

section \<open>The controllers (taskController)\<close>

text \<open>
  A response is its status code and its JSON body; \<open>res.json\<close> without \<open>res.status\<close>
  answers 200. Each controller takes the store and returns it, changed or not. The
  controllers share their names with the service methods they call, hence the suffix. The
  \<open>catch\<close> branch for an error that is not a \<open>ZodError\<close> (status 500) has no counterpart:
  no function of the service throws in the model.
\<close>

datatype ResBody =
  TaskJson Task
| TasksJson "Task list"
| MessageJson string
| ErrorJson string "ZodIssue list option"
| SwaggerHtml

datatype Response = Response (statusCode: nat) (resBody: ResBody)


definition createTask_controller :: "json \<Rightarrow> TaskService \<Rightarrow> Response \<times> TaskService" where
  "createTask_controller b s =
     (case CreateTaskSchema_parse b of
        Inl issues \<Rightarrow> (Response 400 (ErrorJson ''Invalid data'' (Some issues)), s)
      | Inr taskData \<Rightarrow>
          (let (newTask, s') = createTask taskData s
           in (Response 201 (TaskJson newTask), s')))"

definition deleteTask_controller :: "string \<Rightarrow> TaskService \<Rightarrow> Response \<times> TaskService" where
  "deleteTask_controller i s =
     (if i = [] then (Response 400 (ErrorJson ''Task ID is required'' None), s)
      else (let (deleted, s') = deleteTask i s
            in if \<not> deleted then (Response 404 (ErrorJson ''Task not found'' None), s')
               else (Response 200 (MessageJson ''Task deleted''), s')))"

definition updateTaskStatus_controller ::
  "string \<Rightarrow> json \<Rightarrow> TaskService \<Rightarrow> Response \<times> TaskService" where
  "updateTaskStatus_controller i b s =
     (if i = [] then (Response 400 (ErrorJson ''Task ID is required'' None), s)
      else (case UpdateTaskSchema_parse b of
              Inl issues \<Rightarrow> (Response 400 (ErrorJson ''Invalid data'' (Some issues)), s)
            | Inr updateData \<Rightarrow>
                (case updateTaskStatus i updateData s of
                   (None, s') \<Rightarrow> (Response 404 (ErrorJson ''Task not found'' None), s')
                 | (Some updatedTask, s') \<Rightarrow> (Response 200 (TaskJson updatedTask), s'))))"


section \<open>Routing (taskRoutes, server.ts, errorHandler)\<close>

text \<open>
  A request is its method, the request target (the URL path with its query string) as the
  server receives it, and its parsed body. The methods are the five the client uses.
\<close>

datatype Method = GET | POST | PUT | PATCH | DELETE

record Request =
  http_method :: Method
  url :: string
  body :: json



text \<open>
  The part of URL syntax that is modelled. A path segment is made of letters, digits,
  hyphens, underscores, dots and tildes: characters that neither the client's URL parser
  nor the server rewrites. A query may also hold slashes, question marks, equals signs and
  ampersands. A target with any other character (a percent sign, which starts an escape
  that Express decodes; a backslash; a space; a character beyond ASCII) is not modelled:
  the functions below answer \<open>None\<close> or \<open>Not_modelled\<close> for it, and no theorem speaks
  about it.
\<close>

definition segment_char :: "char \<Rightarrow> bool" where
  "segment_char c \<longleftrightarrow>
     (let k = (of_char c :: nat)
      in (48 \<le> k \<and> k \<le> 57) \<or> (65 \<le> k \<and> k \<le> 90) \<or> (97 \<le> k \<and> k \<le> 122)
         \<or> k = 45 \<or> k = 95 \<or> k = 46 \<or> k = 126)"












section \<open>The client's API service (frontend/src/services/taskApi.ts)\<close>




text \<open>
  What a call of the service can throw: an \<open>APIError\<close> with its message, the HTTP status
  and the error body, or a plain \<open>Error\<close> with its message. \<open>makeRequest\<close> sends the
  request; the transport either delivers it to the server or fails, and a failed transport
  is reported with status 0. A response is \<open>ok\<close> when its status is in 200..299; otherwise
  the message is the \<open>error\<close> field of the body, or the status line when that is empty
  (the status texts are those of the codes this server answers with). The server never
  answers 204 or with an empty body, so the branch that returns \<open>undefined\<close> for such a
  response has no counterpart. The base URL is the default \<open>http://localhost:3000/api\<close>,
  of which the server sees the path \<open>/api\<close>. The result is \<open>None\<close> where the URL or the
  server's answer is not modelled.
\<close>

datatype Failure =
  APIError string nat "ResBody option"
| Error string





text \<open>
  The requests of the service that the properties below are about. A request without a
  body reaches the controllers with the empty object that \<open>express.json()\<close> leaves.
  \<open>validateTask\<close> belongs to the client's type module; \<open>getTask\<close> takes it as a
  parameter, \<open>None\<close> standing for a failed validation, whose error message is kept
  without the validator's own text.
\<close>

definition status_string :: "TaskStatus \<Rightarrow> string" where
  "status_string st = (case st of Pending \<Rightarrow> ''pending'' | Done \<Rightarrow> ''done'')"

definition updateTaskStatus_request :: "string \<Rightarrow> TaskStatus \<Rightarrow> Request" where
  "updateTaskStatus_request i st =
     \<lparr>http_method = PATCH, url = ''/tasks/'' @ i, body = JObj [(''status'', JStr (status_string st))]\<rparr>"






section \<open>The save path of the client (TaskItem.handleSave)\<close>








section \<open>The cache layer (the React Query hooks of the client)\<close>

text \<open>
  The part of the query client that the hooks touch: the data cached under the key
  \<open>['tasks']\<close> (\<open>None\<close> for \<open>undefined\<close>), and how often \<open>cancelQueries\<close> and
  \<open>invalidateQueries\<close> were called on that key.
\<close>

record QueryClient =
  queryData :: "Task list option"
  cancellations :: nat
  invalidations :: nat

definition cancelQueries :: "QueryClient \<Rightarrow> QueryClient" where
  "cancelQueries qc = qc\<lparr>cancellations := cancellations qc + 1\<rparr>"

definition invalidateQueries :: "QueryClient \<Rightarrow> QueryClient" where
  "invalidateQueries qc = qc\<lparr>invalidations := invalidations qc + 1\<rparr>"

definition getQueryData :: "QueryClient \<Rightarrow> Task list option" where
  "getQueryData qc = queryData qc"

definition setQueryData :: "Task list \<Rightarrow> QueryClient \<Rightarrow> QueryClient" where
  "setQueryData v qc = qc\<lparr>queryData := Some v\<rparr>"

text \<open>\<open>setQueryData\<close> with an updater \<open>(oldTasks = []) => ...\<close>: absent data reads as \<open>[]\<close>.\<close>

definition setQueryData_updater :: "(Task list \<Rightarrow> Task list) \<Rightarrow> QueryClient \<Rightarrow> QueryClient" where
  "setQueryData_updater f qc =
     qc\<lparr>queryData := Some (f (case queryData qc of None \<Rightarrow> [] | Some oldTasks \<Rightarrow> oldTasks))\<rparr>"

text \<open>
  \<open>useMutation\<close>: the options are the callbacks a hook passes, each of them optional. The
  mutation function is the network call; how it ended is the \<open>Outcome\<close>, after the
  retries of the library, with the data it resolved to (a task, or nothing for a delete).
  A mutation starts with \<open>onMutate\<close>, whose result is the context;
  it settles with \<open>onSuccess\<close> or \<open>onError\<close>, and then \<open>onSettled\<close>.
\<close>

record MutationContext =
  previousTasks :: "Task list option"

datatype 'd Outcome = Resolved 'd | Rejected Failure

record ('v, 'd) MutationOptions =
  onMutate :: "('v \<Rightarrow> QueryClient \<Rightarrow> MutationContext \<times> QueryClient) option"
  onSuccess :: "('d \<Rightarrow> QueryClient \<Rightarrow> QueryClient) option"
  onError :: "(Failure \<Rightarrow> 'v \<Rightarrow> MutationContext option \<Rightarrow> QueryClient \<Rightarrow> QueryClient) option"
  onSettled :: "(QueryClient \<Rightarrow> QueryClient) option"

definition startMutation ::
  "('v, 'd) MutationOptions \<Rightarrow> 'v \<Rightarrow> QueryClient \<Rightarrow> MutationContext option \<times> QueryClient" where
  "startMutation opts v qc =
     (case onMutate opts of
        None \<Rightarrow> (None, qc)
      | Some f \<Rightarrow> (let (c, qc') = f v qc in (Some c, qc')))"

definition settleMutation ::
  "('v, 'd) MutationOptions \<Rightarrow> 'v \<Rightarrow> MutationContext option \<Rightarrow> 'd Outcome \<Rightarrow> QueryClient \<Rightarrow> QueryClient" where
  "settleMutation opts v ctx out qc =
     (let qc1 = (case out of
                   Resolved d \<Rightarrow> (case onSuccess opts of None \<Rightarrow> qc | Some f \<Rightarrow> f d qc)
                 | Rejected e \<Rightarrow> (case onError opts of None \<Rightarrow> qc | Some f \<Rightarrow> f e v ctx qc))
      in case onSettled opts of None \<Rightarrow> qc1 | Some f \<Rightarrow> f qc1)"

definition mutate :: "('v, 'd) MutationOptions \<Rightarrow> 'v \<Rightarrow> 'd Outcome \<Rightarrow> QueryClient \<Rightarrow> QueryClient" where
  "mutate opts v out qc =
     (let (ctx, qc1) = startMutation opts v qc in settleMutation opts v ctx out qc1)"

text \<open>
  The rollback that the three optimistic hooks share word for word:
  \<open>if (context?.previousTasks) setQueryData(TASKS, context.previousTasks)\<close>. An array is
  truthy even when it is empty.
\<close>

definition rollback :: "MutationContext option \<Rightarrow> QueryClient \<Rightarrow> QueryClient" where
  "rollback ctx qc =
     (case ctx of
        None \<Rightarrow> qc
      | Some c \<Rightarrow> (case previousTasks c of None \<Rightarrow> qc | Some prev \<Rightarrow> setQueryData prev qc))"

definition useCreateTaskMutation :: "('v, Task) MutationOptions" where
  "useCreateTaskMutation =
     \<lparr>onMutate = None,
      onSuccess = Some (\<lambda>newTask qc.
        invalidateQueries (setQueryData_updater (\<lambda>oldTasks. oldTasks @ [newTask]) qc)),
      onError = Some (\<lambda>error variables context qc. qc),
      onSettled = None\<rparr>"

definition useUpdateTaskStatusMutation :: "(string \<times> TaskStatus, Task) MutationOptions" where
  "useUpdateTaskStatusMutation =
     \<lparr>onMutate = Some (\<lambda>(i, st) qc.
        (let qc1 = cancelQueries qc;
             prev = getQueryData qc1;
             qc2 = (case prev of
                      None \<Rightarrow> qc1
                    | Some p \<Rightarrow>
                        setQueryData_updater
                          (map (\<lambda>task. if task_id task = i then task\<lparr>status := st\<rparr> else task)) qc1)
         in (\<lparr>previousTasks = prev\<rparr>, qc2))),
      onSuccess = None,
      onError = Some (\<lambda>error variables context qc. rollback context qc),
      onSettled = Some invalidateQueries\<rparr>"

text \<open>
  The full update merges \<open>{ ...task, ...updates }\<close>, where \<open>updates\<close> is an
  \<open>UpdateTaskData\<close> of the client's type module: the type and the merge are parameters.
\<close>

definition useUpdateTaskMutation :: "(Task \<Rightarrow> 'u \<Rightarrow> Task) \<Rightarrow> (string \<times> 'u, Task) MutationOptions" where
  "useUpdateTaskMutation spread =
     \<lparr>onMutate = Some (\<lambda>(i, updates) qc.
        (let qc1 = cancelQueries qc;
             prev = getQueryData qc1;
             qc2 = (case prev of
                      None \<Rightarrow> qc1
                    | Some p \<Rightarrow>
                        setQueryData_updater
                          (map (\<lambda>task. if task_id task = i then spread task updates else task)) qc1)
         in (\<lparr>previousTasks = prev\<rparr>, qc2))),
      onSuccess = None,
      onError = Some (\<lambda>error variables context qc. rollback context qc),
      onSettled = Some invalidateQueries\<rparr>"

definition useDeleteTaskMutation :: "(string, unit) MutationOptions" where
  "useDeleteTaskMutation =
     \<lparr>onMutate = Some (\<lambda>i qc.
        (let qc1 = cancelQueries qc;
             prev = getQueryData qc1;
             qc2 = (case prev of
                      None \<Rightarrow> qc1
                    | Some p \<Rightarrow> setQueryData_updater (filter (\<lambda>task. task_id task \<noteq> i)) qc1)
         in (\<lparr>previousTasks = prev\<rparr>, qc2))),
      onSuccess = None,
      onError = Some (\<lambda>error variables context qc. rollback context qc),
      onSettled = Some invalidateQueries\<rparr>"

text \<open>
  \<open>toggleTaskStatus\<close> of \<open>useTasks\<close>: it throws before anything else when the id is
  not among the cached tasks (\<open>Inl\<close>); otherwise it calls \<open>mutateAsync\<close> of the status
  mutation with the variables it computed (\<open>Inr\<close>). \<open>toggle_requests\<close> is what an attempt
  of that call sends: the request of the mutation function, and nothing when it threw.
\<close>

definition toggleTaskStatus :: "string \<Rightarrow> QueryClient \<Rightarrow> Failure + (string \<times> TaskStatus)" where
  "toggleTaskStatus i qc =
     (let currentTasks = (case queryData qc of None \<Rightarrow> [] | Some d \<Rightarrow> d)
      in case find (\<lambda>t. task_id t = i) currentTasks of
           None \<Rightarrow> Inl (Error ''Task not found'')
         | Some task \<Rightarrow>
             (let newStatus = (if status task = Done then Pending else Done)
              in Inr (i, newStatus)))"

definition toggle_requests :: "string \<Rightarrow> QueryClient \<Rightarrow> Request list" where
  "toggle_requests i qc =
     (case toggleTaskStatus i qc of
        Inl err \<Rightarrow> []
      | Inr (i', st) \<Rightarrow> [updateTaskStatus_request i' st])"

section \<open>The invariant of the store\<close>

text \<open>
  What every reachable store satisfies: the ids of its tasks are pairwise distinct, and each
  of them is the string form of a counter value below \<open>nextId\<close>.
\<close>

definition store_inv :: "TaskService \<Rightarrow> bool" where
  "store_inv s \<longleftrightarrow>
     distinct (map task_id (tasks s)) \<and> set (map task_id (tasks s)) \<subseteq> toString ` {..<nextId s}"

section \<open>Facts about \<open>findIndex\<close>\<close>

lemma findIndex_ge: "- 1 \<le> findIndex P xs"
  by (induction xs) (auto simp: Let_def)

lemma findIndex_none_iff: "findIndex P xs = - 1 \<longleftrightarrow> (\<forall>x \<in> set xs. \<not> P x)"
proof (induction xs)
  case Nil
  then show ?case by simp
next
  case (Cons x xs)
  then show ?case
    using findIndex_ge [of P xs] by (auto simp: Let_def)
qed

lemma findIndex_lt: "findIndex P xs < int (length xs) \<or> xs = []"
  by (induction xs) (auto simp: Let_def)

lemma findIndex_found:
  assumes "findIndex P xs \<noteq> - 1"
  shows "nat (findIndex P xs) < length xs \<and> P (xs ! nat (findIndex P xs))
         \<and> (\<forall>j < nat (findIndex P xs). \<not> P (xs ! j))"
  using assms
proof (induction xs)
  case Nil
  then show ?case by simp
next
  case (Cons x xs)
  show ?case
  proof (cases "P x")
    case True
    then show ?thesis by simp
  next
    case False
    with Cons.prems have ne: "findIndex P xs \<noteq> - 1"
      by (auto simp: Let_def split: if_splits)
    from findIndex_ge [of P xs] ne have nn: "0 \<le> findIndex P xs" by arith
    with False ne have eq: "nat (findIndex P (x # xs)) = Suc (nat (findIndex P xs))"
      by (simp add: Let_def nat_add_distrib)
    from Cons.IH [OF ne] False show ?thesis
      unfolding eq by (auto simp: less_Suc_eq_0_disj)
  qed
qed

section \<open>Decimal numerals are injective\<close>

lemma toString_nonempty: "toString n \<noteq> []"
  by (subst toString.simps) simp

lemma digit_char_inj: "a < 10 \<Longrightarrow> b < 10 \<Longrightarrow> digit_char a = digit_char b \<Longrightarrow> a = b"
proof -
  assume a: "a < 10" and b: "b < 10" and e: "digit_char a = digit_char b"
  from e have "(48 + a) mod 256 = (48 + b) mod 256"
    by (simp add: digit_char_def char_of_eq_iff take_bit_eq_mod)
  with a b show "a = b" by simp
qed

lemma toString_inj: "toString m = toString n \<Longrightarrow> m = n"
proof (induction m arbitrary: n rule: toString.induct)
  case (1 m)
  show ?case
  proof (cases "m < 10")
    case small_m: True
    show ?thesis
    proof (cases "n < 10")
      case True
      with small_m "1.prems" show ?thesis
        by (simp add: toString.simps [of m] toString.simps [of n] digit_char_inj)
    next
      case False
      with small_m "1.prems" toString_nonempty [of "n div 10"] show ?thesis
        by (simp add: toString.simps [of m] toString.simps [of n])
    qed
  next
    case big_m: False
    show ?thesis
    proof (cases "n < 10")
      case True
      with big_m "1.prems" toString_nonempty [of "m div 10"] show ?thesis
        by (simp add: toString.simps [of m] toString.simps [of n])
    next
      case False
      with big_m "1.prems" have
        eq: "toString (m div 10) = toString (n div 10)" and
        d: "digit_char (m mod 10) = digit_char (n mod 10)"
        by (simp_all add: toString.simps [of m] toString.simps [of n])
      from "1.IH" [OF big_m eq] have q: "m div 10 = n div 10" .
      from d have r: "m mod 10 = n mod 10"
        by (intro digit_char_inj) simp_all
      from q r show ?thesis
        by (metis div_mult_mod_eq)
    qed
  qed
qed

lemma toString_1: "toString 1 = ''1''"
  by code_simp

lemma toString_Suc_0: "toString (Suc 0) = ''1''"
  using toString_1 by simp

lemma toString_2: "toString 2 = ''2''"
  by code_simp

lemma toString_3: "toString 3 = ''3''"
  by code_simp

section \<open>Service steps\<close>

lemma deleteTask_absent:
  "i \<notin> task_id ` set (tasks s) \<Longrightarrow> deleteTask i s = (False, s)"
  by (auto simp: deleteTask_def Let_def findIndex_none_iff)

lemma findIndex_present:
  assumes "i \<in> task_id ` set xs"
  shows "findIndex (\<lambda>task. task_id task = i) xs \<noteq> - 1"
  using assms by (auto simp: findIndex_none_iff)

lemma first_index:
  assumes "i \<in> task_id ` set xs"
  defines "k \<equiv> nat (findIndex (\<lambda>task. task_id task = i) xs)"
  shows "k < length xs" "task_id (xs ! k) = i" "\<forall>j<k. task_id (xs ! j) \<noteq> i"
  using findIndex_found [OF findIndex_present [OF assms(1)]] unfolding k_def by auto

lemma deleteTask_present:
  assumes "i \<in> task_id ` set (tasks s)"
  shows "deleteTask i s =
    (True, s\<lparr>tasks := splice1 (nat (findIndex (\<lambda>task. task_id task = i) (tasks s))) (tasks s)\<rparr>)"
  using findIndex_present [OF assms] by (simp add: deleteTask_def Let_def)

lemma splice1_distinct_first:
  assumes "distinct (map f xs)" "k < length xs"
  shows "splice1 k xs = filter (\<lambda>t. f t \<noteq> f (xs ! k)) xs"
proof -
  have xs: "xs = take k xs @ xs ! k # drop (Suc k) xs"
    using assms(2) by (simp add: id_take_nth_drop)
  from assms(1) have d: "distinct (map f (take k xs @ xs ! k # drop (Suc k) xs))"
    using xs by simp
  then have "f (xs ! k) \<notin> f ` set (take k xs)" "f (xs ! k) \<notin> f ` set (drop (Suc k) xs)"
    by auto
  then have a: "\<forall>t \<in> set (take k xs). f t \<noteq> f (xs ! k)"
    and b: "\<forall>t \<in> set (drop (Suc k) xs). f t \<noteq> f (xs ! k)"
    by (metis imageI)+
  have "filter (\<lambda>t. f t \<noteq> f (xs ! k)) (take k xs @ xs ! k # drop (Suc k) xs)
        = take k xs @ drop (Suc k) xs"
    using a b by (simp add: filter_id_conv)
  with xs show ?thesis by (simp add: splice1_def)
qed

lemma splice1_length: "k < length xs \<Longrightarrow> length (splice1 k xs) = length xs - 1"
  by (simp add: splice1_def)

lemma splice1_set: "set (splice1 k xs) \<subseteq> set xs"
  unfolding splice1_def by (auto dest: in_set_takeD in_set_dropD)

lemma splice1_distinct: "distinct (map f xs) \<Longrightarrow> distinct (map f (splice1 k xs))"
proof -
  assume d: "distinct (map f xs)"
  have "map f xs = take k (map f xs) @ drop k (map f xs)" by simp
  have "distinct (take k (map f xs) @ drop (Suc k) (map f xs))"
  proof -
    have "distinct (take k (map f xs))" "distinct (drop (Suc k) (map f xs))"
      using d by simp_all
    moreover have "set (take k (map f xs)) \<inter> set (drop (Suc k) (map f xs)) = {}"
    proof -
      have "set (drop (Suc k) (map f xs)) \<subseteq> set (drop k (map f xs))"
        by (rule set_drop_subset_set_drop) simp
      moreover have "set (take k (map f xs)) \<inter> set (drop k (map f xs)) = {}"
        using d by (metis append_take_drop_id distinct_append)
      ultimately show ?thesis by blast
    qed
    ultimately show ?thesis by simp
  qed
  then show ?thesis by (simp add: splice1_def take_map drop_map)
qed

lemma updateTaskStatus_absent:
  "i \<notin> task_id ` set (tasks s) \<Longrightarrow> updateTaskStatus i u s = (None, s)"
  by (auto simp: updateTaskStatus_def Let_def findIndex_none_iff)

lemma updateTaskStatus_present:
  assumes "i \<in> task_id ` set (tasks s)"
  defines "k \<equiv> nat (findIndex (\<lambda>task. task_id task = i) (tasks s))"
  shows "updateTaskStatus i u s =
    (Some ((tasks s ! k)\<lparr>status := ut_status u\<rparr>),
     s\<lparr>tasks := (tasks s)[k := (tasks s ! k)\<lparr>status := ut_status u\<rparr>]\<rparr>)"
  using findIndex_present [OF assms(1)]
  by (simp add: updateTaskStatus_def Let_def spread_UpdateTask_def k_def)

lemma updateTask_absent:
  "i \<notin> task_id ` set (tasks s) \<Longrightarrow> updateTask i u s = (None, s)"
  by (auto simp: updateTask_def Let_def findIndex_none_iff)


lemma map_update_same:
  "f y = f (xs ! k) \<Longrightarrow> map f (xs[k := y]) = map f xs"
  by (cases "k < length xs") (simp_all add: map_update list_update_same_conv list_update_beyond)

lemma updateTaskStatus_ids:
  "map task_id (tasks (snd (updateTaskStatus i u s))) = map task_id (tasks s)"
  by (simp add: updateTaskStatus_def Let_def spread_UpdateTask_def map_update_same)

lemma updateTask_ids:
  "map task_id (tasks (snd (updateTask i u s))) = map task_id (tasks s)"
  by (simp add: updateTask_def Let_def spread_CreateTask_def map_update_same)

section \<open>The invariant holds along every run\<close>

lemma store_inv_initial: "store_inv initialService"
proof -
  have "''1'' \<in> toString ` {..<2}"
    using toString_1 by (metis imageI lessThan_iff one_less_numeral_iff semiring_norm(76))
  then show ?thesis by (simp add: store_inv_def initialService_def)
qed

lemma store_inv_create: "store_inv s \<Longrightarrow> store_inv (snd (createTask d s))"
proof -
  assume inv: "store_inv s"
  have fresh: "toString (nextId s) \<notin> toString ` {..<nextId s}"
    by (auto dest: toString_inj)
  have mono: "toString ` {..<nextId s} \<subseteq> toString ` {..<Suc (nextId s)}"
    by auto
  from inv fresh mono show ?thesis
    unfolding store_inv_def createTask_def Let_def
    by (auto simp: lessThan_Suc)
qed

lemma store_inv_delete: "store_inv s \<Longrightarrow> store_inv (snd (deleteTask i s))"
proof -
  assume inv: "store_inv s"
  have "set (map task_id (splice1 k (tasks s))) \<subseteq> set (map task_id (tasks s))" for k
    using splice1_set [of k "tasks s"] by auto
  with inv show ?thesis
    unfolding store_inv_def deleteTask_def Let_def
    by (auto simp: splice1_distinct simp del: set_map)
qed

lemma store_inv_step: "store_inv s \<Longrightarrow> store_inv (apply_op op s)"
proof (cases op)
  case (Create d)
  assume "store_inv s"
  with Create show ?thesis by (simp add: store_inv_create)
next
  case (UpdateStatus i u)
  assume "store_inv s"
  moreover have "nextId (snd (updateTaskStatus i u s)) = nextId s"
    by (simp add: updateTaskStatus_def Let_def)
  ultimately show ?thesis
    using UpdateStatus updateTaskStatus_ids [of i u s]
    by (simp add: store_inv_def del: set_map)
next
  case (Update i d)
  assume "store_inv s"
  moreover have "nextId (snd (updateTask i d s)) = nextId s"
    by (simp add: updateTask_def Let_def)
  ultimately show ?thesis
    using Update updateTask_ids [of i d s]
    by (simp add: store_inv_def del: set_map)
next
  case (Delete i)
  assume "store_inv s"
  with Delete show ?thesis by (simp add: store_inv_delete)
qed

lemma store_inv_run: "store_inv s \<Longrightarrow> store_inv (run ops s)"
  by (induction ops arbitrary: s) (simp_all add: store_inv_step)

lemma run_distinct: "distinct (map task_id (tasks (run ops initialService)))"
  using store_inv_run [OF store_inv_initial] by (simp add: store_inv_def)

lemma run_ids_nonempty: "i \<in> task_id ` set (tasks (run ops initialService)) \<Longrightarrow> i \<noteq> []"
  using store_inv_run [OF store_inv_initial, of ops] toString_nonempty
  by (auto simp: store_inv_def)

lemma nextId_step: "nextId s \<le> nextId (apply_op op s)"
  by (cases op)
     (simp_all add: createTask_def deleteTask_def updateTaskStatus_def updateTask_def Let_def)

lemma nextId_run: "nextId s \<le> nextId (run ops s)"
proof (induction ops arbitrary: s)
  case Nil
  then show ?case by simp
next
  case (Cons op ops)
  from nextId_step [of s op] Cons [of "apply_op op s"] show ?case by simp
qed

lemma nextId_other:
  "nextId (snd (updateTaskStatus i u s)) = nextId s"
  "nextId (snd (updateTask i d s)) = nextId s"
  "nextId (snd (deleteTask i s)) = nextId s"
  "nextId (snd (createTask d s)) = nextId s + 1"
  by (simp_all add: createTask_def deleteTask_def updateTaskStatus_def updateTask_def Let_def)

lemma assigned_run: "assigned ops s = map toString [nextId s ..< nextId (run ops s)]"
proof (induction ops arbitrary: s)
  case Nil
  then show ?case by simp
next
  case (Cons op ops)
  show ?case
  proof (cases op)
    case (Create d)
    let ?s' = "snd (createTask d s)"
    have n: "nextId ?s' = Suc (nextId s)" by (simp add: nextId_other)
    have le: "Suc (nextId s) \<le> nextId (run ops ?s')"
      using nextId_run [of ?s' ops] n by simp
    have "assigned (op # ops) s = toString (nextId s) # assigned ops ?s'"
      using Create by (simp add: createTask_def Let_def)
    also have "\<dots> = toString (nextId s) # map toString [Suc (nextId s) ..< nextId (run ops ?s')]"
      using Cons [of ?s'] n by simp
    also have "\<dots> = map toString [nextId s ..< nextId (run ops ?s')]"
      using le by (simp add: upt_conv_Cons)
    finally show ?thesis using Create by simp
  next
    case (UpdateStatus i u)
    then show ?thesis using Cons [of "snd (updateTaskStatus i u s)"] by (simp add: nextId_other)
  next
    case (Update i d)
    then show ?thesis using Cons [of "snd (updateTask i d s)"] by (simp add: nextId_other)
  next
    case (Delete i)
    then show ?thesis using Cons [of "snd (deleteTask i s)"] by (simp add: nextId_other)
  qed
qed

lemma assigned_distinct: "distinct (''1'' # assigned ops initialService)"
proof -
  let ?N = "nextId (run ops initialService)"
  have "''1'' # assigned ops initialService = map toString (1 # [2 ..< ?N])"
    by (simp add: assigned_run toString_Suc_0 initialService_def)
  moreover have "distinct (map toString (1 # [2 ..< ?N]))"
    by (subst distinct_map) (auto simp: inj_on_def dest: toString_inj)
  ultimately show ?thesis by simp
qed

lemma delete_shape:
  "tasks (snd (deleteTask i s)) = tasks s
   \<or> (\<exists>k<length (tasks s). tasks (snd (deleteTask i s)) = splice1 k (tasks s))"
proof (cases "i \<in> task_id ` set (tasks s)")
  case True
  from first_index(1) [OF True] deleteTask_present [OF True] show ?thesis by auto
next
  case False
  then show ?thesis by (simp add: deleteTask_absent)
qed

section \<open>Unfolding the cache layer\<close>

lemmas cache_defs =
  mutate_def startMutation_def settleMutation_def
  useCreateTaskMutation_def useUpdateTaskStatusMutation_def useUpdateTaskMutation_def
  useDeleteTaskMutation_def rollback_def setQueryData_def setQueryData_updater_def
  getQueryData_def cancelQueries_def invalidateQueries_def

section \<open>Controllers and schemas\<close>

lemma deleteTask_twice:
  assumes d: "distinct (map task_id (tasks s))" and p: "i \<in> task_id ` set (tasks s)"
  shows "tasks (snd (deleteTask i s)) = filter (\<lambda>t. task_id t \<noteq> i) (tasks s)"
    and "deleteTask i (snd (deleteTask i s)) = (False, snd (deleteTask i s))"
proof -
  let ?k = "nat (findIndex (\<lambda>task. task_id task = i) (tasks s))"
  from first_index [OF p] have k: "?k < length (tasks s)" "task_id (tasks s ! ?k) = i"
    by simp_all
  from splice1_distinct_first [OF d k(1)] k(2)
  have "splice1 ?k (tasks s) = filter (\<lambda>t. task_id t \<noteq> i) (tasks s)" by simp
  with deleteTask_present [OF p]
  show f: "tasks (snd (deleteTask i s)) = filter (\<lambda>t. task_id t \<noteq> i) (tasks s)" by simp
  have "i \<notin> task_id ` set (tasks (snd (deleteTask i s)))"
    unfolding f by auto
  then show "deleteTask i (snd (deleteTask i s)) = (False, snd (deleteTask i s))"
    by (rule deleteTask_absent)
qed

lemma deleteTask_controller_absent:
  "i \<notin> task_id ` set (tasks s) \<Longrightarrow> i \<noteq> [] \<Longrightarrow>
     deleteTask_controller i s = (Response 404 (ErrorJson ''Task not found'' None), s)"
  by (simp add: deleteTask_controller_def deleteTask_absent)

lemma deleteTask_controller_present:
  "i \<in> task_id ` set (tasks s) \<Longrightarrow> i \<noteq> [] \<Longrightarrow>
     deleteTask_controller i s = (Response 200 (MessageJson ''Task deleted''), snd (deleteTask i s))"
  by (simp add: deleteTask_controller_def deleteTask_present)

lemma UpdateTaskSchema_valid:
  "UpdateTaskSchema_parse (JObj [(''status'', JStr (status_string st))]) = Inr \<lparr>ut_status = st\<rparr>"
  by (cases st) (simp_all add: UpdateTaskSchema_parse_def z_status_enum_def status_string_def)

lemma updateTaskStatus_others:
  assumes "j < length (tasks s)" "task_id (tasks s ! j) \<noteq> i"
  shows "tasks (snd (updateTaskStatus i u s)) ! j = tasks s ! j"
proof (cases "i \<in> task_id ` set (tasks s)")
  case True
  from first_index(2) [OF True] assms(2)
  have "nat (findIndex (\<lambda>task. task_id task = i) (tasks s)) \<noteq> j" by auto
  with updateTaskStatus_present [OF True, of u] show ?thesis by simp
next
  case False
  then show ?thesis by (simp add: updateTaskStatus_absent)
qed

lemma updateTaskStatus_fields:
  "length (tasks (snd (updateTaskStatus i u s))) = length (tasks s)"
  "map title (tasks (snd (updateTaskStatus i u s))) = map title (tasks s)"
  "map description (tasks (snd (updateTaskStatus i u s))) = map description (tasks s)"
  by (simp_all add: updateTaskStatus_def Let_def spread_UpdateTask_def map_update_same)




lemma parse_shape:
  "(case (t, d, s) of
      (Inr t', Inr d', Inr s') \<Rightarrow> Inr (f t' d' s')
    | _ \<Rightarrow> Inl z)
   = (if isl t \<or> isl d \<or> isl s then Inl z else Inr (f (projr t) (projr d) (projr s)))"
  by (cases t; cases d; cases s) simp_all

lemma CreateTaskSchema_parse_JObj:
  "CreateTaskSchema_parse (JObj kvs) =
     (let t = z_string_min1 ''title'' (get_prop (JObj kvs) ''title'');
          d = z_string_min1 ''description'' (get_prop (JObj kvs) ''description'');
          s = z_status_default ''status'' (get_prop (JObj kvs) ''status'')
      in if isl t \<or> isl d \<or> isl s then Inl (issues_of t @ issues_of d @ issues_of s)
         else Inr \<lparr>ct_title = projr t, ct_description = projr d, ct_status = projr s\<rparr>)"
  unfolding CreateTaskSchema_parse_def Let_def parse_shape by (simp only: json.case)


section \<open>The full update and the save path\<close>





section \<open>Routing of the single-task lookup\<close>



lemma segment_literals:
  "list_all segment_char ''tasks''" "list_all segment_char ''api''"
  by (simp_all add: segment_char_def)


























section \<open>Properties of the cache layer\<close>

text \<open>
  C1. Rollback exactness. When the network call of an update-status, a full-update or a
  delete mutation fails, the data cached under the tasks key is afterwards what it was
  before the mutation started, whatever the optimistic change was. The restore replaces the
  collection: whatever the cache holds when the error arrives, \<open>onError\<close> puts the
  snapshot \<open>S\<close> of the context in its place.
\<close>

theorem rollback_exactness:
  "queryData (mutate useUpdateTaskStatusMutation (i, st) (Rejected err) qc) = queryData qc
   \<and> queryData (mutate (useUpdateTaskMutation spread) (i, updates) (Rejected err) qc) = queryData qc
   \<and> queryData (mutate useDeleteTaskMutation i (Rejected err) qc) = queryData qc
   \<and> queryData (settleMutation useUpdateTaskStatusMutation (i, st)
         (Some \<lparr>previousTasks = Some S\<rparr>) (Rejected err) qc') = Some S
   \<and> queryData (settleMutation (useUpdateTaskMutation spread) (i, updates)
         (Some \<lparr>previousTasks = Some S\<rparr>) (Rejected err) qc') = Some S
   \<and> queryData (settleMutation useDeleteTaskMutation i
         (Some \<lparr>previousTasks = Some S\<rparr>) (Rejected err) qc') = Some S"
  by (cases "queryData qc") (simp_all add: cache_defs Let_def)

theorem rollback_exactness_witness:
  "queryData (mutate useDeleteTaskMutation ''1'' (Rejected (APIError ''Task not found'' 404 None))
      \<lparr>queryData = Some (tasks initialService), cancellations = 0, invalidations = 0\<rparr>)
     = Some (tasks initialService)
   \<and> queryData (snd (startMutation useDeleteTaskMutation ''1''
      \<lparr>queryData = Some (tasks initialService), cancellations = 0, invalidations = 0\<rparr>)) = Some []"
  using rollback_exactness [where i = "''1''" and st = Done
      and err = "APIError ''Task not found'' 404 None"
      and qc = "\<lparr>queryData = Some (tasks initialService), cancellations = 0, invalidations = 0\<rparr>"
      and qc' = "\<lparr>queryData = Some [], cancellations = 1, invalidations = 0\<rparr>"
      and S = "tasks initialService" and spread = spread_CreateTask
      and updates = "\<lparr>ct_title = ''A'', ct_description = ''B'', ct_status = Pending\<rparr>"]
  by (simp add: cache_defs initialService_def)

text \<open>
  C2, as amended. The update-status, full-update and delete mutations call
  \<open>invalidateQueries\<close> on the tasks key once when they settle, whether the network call
  resolved or was rejected. The create mutation does so when the call resolved; when it was
  rejected the hook has no \<open>onSettled\<close>, its \<open>onError\<close> only logs, and nothing is
  invalidated.
\<close>

theorem revalidation_scheduled:
  "invalidations (mutate useUpdateTaskStatusMutation (i, st) out qc) = invalidations qc + 1
   \<and> invalidations (mutate (useUpdateTaskMutation spread) (i, updates) out qc) = invalidations qc + 1
   \<and> invalidations (mutate useDeleteTaskMutation i out' qc) = invalidations qc + 1
   \<and> invalidations (mutate useCreateTaskMutation v (Resolved newTask) qc) = invalidations qc + 1
   \<and> invalidations (mutate useCreateTaskMutation v (Rejected err) qc) = invalidations qc"
  by (cases out; cases out'; cases "queryData qc") (simp_all add: cache_defs Let_def)

theorem revalidation_scheduled_witness:
  "invalidations (mutate useDeleteTaskMutation ''1'' (Rejected (APIError ''Task not found'' 404 None))
      \<lparr>queryData = Some (tasks initialService), cancellations = 0, invalidations = 0\<rparr>) = 1
   \<and> invalidations (mutate useUpdateTaskStatusMutation (''1'', Done)
      (Resolved \<lparr>task_id = ''1'', title = ''Sample Task'',
                 description = ''This is a sample task'', status = Done\<rparr>)
      \<lparr>queryData = Some (tasks initialService), cancellations = 0, invalidations = 0\<rparr>) = 1"
  using revalidation_scheduled [where i = "''1''" and st = Done
      and out = "Resolved \<lparr>task_id = ''1'', title = ''Sample Task'',
                 description = ''This is a sample task'', status = Done\<rparr>"
      and out' = "Rejected (APIError ''Task not found'' 404 None)"
      and qc = "\<lparr>queryData = Some (tasks initialService), cancellations = 0, invalidations = 0\<rparr>"
      and spread = spread_CreateTask
      and updates = "\<lparr>ct_title = ''A'', ct_description = ''B'', ct_status = Pending\<rparr>"
      and v = "\<lparr>ct_title = ''A'', ct_description = ''B'', ct_status = Pending\<rparr>"
      and err = "Error ''x''"
      and newTask = "\<lparr>task_id = ''2'', title = ''A'', description = ''B'', status = Pending\<rparr>"]
  by simp

text \<open>
  C2 as it is stated fails for a create whose network call is rejected: no invalidation is
  counted.
\<close>

theorem create_failure_no_invalidation:
  "invalidations
     (mutate useCreateTaskMutation
        \<lparr>ct_title = ''A'', ct_description = ''B'', ct_status = Pending\<rparr>
        (Rejected (APIError ''Server error'' 500 None))
        \<lparr>queryData = Some (tasks initialService), cancellations = 0, invalidations = 0\<rparr>) = 0"
  by (simp add: cache_defs)

text \<open>
  C3. The create mutation has no \<open>onMutate\<close>: starting it leaves the query client as it
  is, the cached list gets the record of the server appended when the call resolves, and is
  unchanged when the call is rejected. The other three mutations change a cached list
  \<open>ts\<close> in \<open>onMutate\<close>, before the network call: the status of the matching task is
  set, the updates are merged into the matching task, the matching tasks are filtered out.
\<close>

theorem optimistic_policy:
  "startMutation useCreateTaskMutation v qc = (None, qc)
   \<and> queryData (mutate useCreateTaskMutation v (Resolved newTask) qc)
       = Some ((case queryData qc of None \<Rightarrow> [] | Some ts \<Rightarrow> ts) @ [newTask])
   \<and> queryData (mutate useCreateTaskMutation v (Rejected err) qc) = queryData qc
   \<and> (queryData qc = Some ts \<longrightarrow>
        queryData (snd (startMutation useUpdateTaskStatusMutation (i, st) qc))
          = Some (map (\<lambda>task. if task_id task = i then task\<lparr>status := st\<rparr> else task) ts)
      \<and> queryData (snd (startMutation (useUpdateTaskMutation spread) (i, updates) qc))
          = Some (map (\<lambda>task. if task_id task = i then spread task updates else task) ts)
      \<and> queryData (snd (startMutation useDeleteTaskMutation i qc))
          = Some (filter (\<lambda>task. task_id task \<noteq> i) ts))"
  by (simp add: cache_defs Let_def)

theorem optimistic_policy_witness:
  "queryData \<lparr>queryData = Some (tasks initialService), cancellations = 0, invalidations = 0\<rparr>
     = Some (tasks initialService)
   \<and> queryData (snd (startMutation useUpdateTaskStatusMutation
        (''1'', Done)
        \<lparr>queryData = Some (tasks initialService), cancellations = 0, invalidations = 0\<rparr>))
     = Some [\<lparr>task_id = ''1'', title = ''Sample Task'',
              description = ''This is a sample task'', status = Done\<rparr>]
   \<and> queryData (snd (startMutation useDeleteTaskMutation ''1''
        \<lparr>queryData = Some (tasks initialService), cancellations = 0, invalidations = 0\<rparr>))
     = Some []"
  using optimistic_policy [where i = "''1''" and st = Done
      and qc = "\<lparr>queryData = Some (tasks initialService), cancellations = 0, invalidations = 0\<rparr>"
      and ts = "tasks initialService" and spread = spread_CreateTask
      and updates = "\<lparr>ct_title = ''A'', ct_description = ''B'', ct_status = Pending\<rparr>"
      and v = "\<lparr>ct_title = ''A'', ct_description = ''B'', ct_status = Pending\<rparr>"
      and err = "Error ''x''"
      and newTask = "\<lparr>task_id = ''2'', title = ''A'', description = ''B'', status = Pending\<rparr>"]
  by (simp add: initialService_def)

text \<open>
  C4. Toggle correctness. For an id among the cached tasks, \<open>toggleTaskStatus\<close> takes the
  first cached task with that id, computes the other value of its status, and calls the
  status mutation, whose request is a PATCH with that value. For an id that is not among the
  cached tasks, and when nothing is cached, it fails with the error \<open>Task not found\<close> and
  sends no request.
\<close>

theorem toggle_correctness:
  "(i \<in> task_id ` set ts \<longrightarrow>
      (\<exists>task. find (\<lambda>t. task_id t = i) ts = Some task \<and> task \<in> set ts \<and> task_id task = i
         \<and> toggleTaskStatus i (qc\<lparr>queryData := Some ts\<rparr>)
              = Inr (i, if status task = Pending then Done else Pending)
         \<and> toggle_requests i (qc\<lparr>queryData := Some ts\<rparr>)
              = [updateTaskStatus_request i (if status task = Pending then Done else Pending)]))
   \<and> (i \<notin> task_id ` set ts \<longrightarrow>
        toggleTaskStatus i (qc\<lparr>queryData := Some ts\<rparr>) = Inl (Error ''Task not found'')
        \<and> toggle_requests i (qc\<lparr>queryData := Some ts\<rparr>) = [])
   \<and> toggleTaskStatus i (qc\<lparr>queryData := None\<rparr>) = Inl (Error ''Task not found'')
   \<and> toggle_requests i (qc\<lparr>queryData := None\<rparr>) = []"
proof -
  have absent: "find (\<lambda>t. task_id t = i) ts = None" if "i \<notin> task_id ` set ts"
    using that by (auto simp: find_None_iff)
  have present: "\<exists>task. find (\<lambda>t. task_id t = i) ts = Some task \<and> task \<in> set ts \<and> task_id task = i"
    if "i \<in> task_id ` set ts"
  proof (cases "find (\<lambda>t. task_id t = i) ts")
    case None
    with that show ?thesis by (auto simp: find_None_iff)
  next
    case (Some task)
    then show ?thesis by (auto simp: find_Some_iff)
  qed
  show ?thesis
  proof (intro conjI impI)
    assume "i \<in> task_id ` set ts"
    from present [OF this] obtain task where
      t: "find (\<lambda>t. task_id t = i) ts = Some task" "task \<in> set ts" "task_id task = i"
      by blast
    then show "\<exists>task. find (\<lambda>t. task_id t = i) ts = Some task \<and> task \<in> set ts \<and> task_id task = i
         \<and> toggleTaskStatus i (qc\<lparr>queryData := Some ts\<rparr>)
              = Inr (i, if status task = Pending then Done else Pending)
         \<and> toggle_requests i (qc\<lparr>queryData := Some ts\<rparr>)
              = [updateTaskStatus_request i (if status task = Pending then Done else Pending)]"
      by (cases "status task") (auto simp: toggleTaskStatus_def toggle_requests_def)
  next
    assume a: "i \<notin> task_id ` set ts"
    show "toggleTaskStatus i (qc\<lparr>queryData := Some ts\<rparr>) = Inl (Error ''Task not found'')"
      using absent [OF a] by (simp add: toggleTaskStatus_def)
    show "toggle_requests i (qc\<lparr>queryData := Some ts\<rparr>) = []"
      using absent [OF a] by (simp add: toggleTaskStatus_def toggle_requests_def)
  next
    show "toggleTaskStatus i (qc\<lparr>queryData := None\<rparr>) = Inl (Error ''Task not found'')"
      by (simp add: toggleTaskStatus_def)
    show "toggle_requests i (qc\<lparr>queryData := None\<rparr>) = []"
      by (simp add: toggleTaskStatus_def toggle_requests_def)
  qed
qed

theorem toggle_correctness_witness:
  "''1'' \<in> task_id ` set (tasks initialService)
   \<and> toggleTaskStatus ''1''
        \<lparr>queryData = Some (tasks initialService), cancellations = 0, invalidations = 0\<rparr>
      = Inr (''1'', Done)
   \<and> toggle_requests ''1''
        \<lparr>queryData = Some (tasks initialService), cancellations = 0, invalidations = 0\<rparr>
      = [\<lparr>http_method = PATCH, url = ''/tasks/1'', body = JObj [(''status'', JStr ''done'')]\<rparr>]
   \<and> ''7'' \<notin> task_id ` set (tasks initialService)
   \<and> toggle_requests ''7''
        \<lparr>queryData = Some (tasks initialService), cancellations = 0, invalidations = 0\<rparr> = []"
proof -
  let ?qc = "\<lparr>queryData = Some (tasks initialService), cancellations = 0, invalidations = 0\<rparr>"
  have p: "''1'' \<in> task_id ` set (tasks initialService)"
    and q: "''7'' \<notin> task_id ` set (tasks initialService)"
    by (simp_all add: initialService_def)
  have f: "find (\<lambda>t. task_id t = ''1'') (tasks initialService) = Some (hd (tasks initialService))"
    by (simp add: initialService_def)
  from toggle_correctness [where i = "''1''" and ts = "tasks initialService" and qc = ?qc] p f
  have "toggleTaskStatus ''1'' ?qc = Inr (''1'', Done)"
    "toggle_requests ''1'' ?qc = [updateTaskStatus_request ''1'' Done]"
    by (simp_all add: initialService_def)
  moreover from toggle_correctness [where i = "''7''" and ts = "tasks initialService" and qc = ?qc] q
  have "toggle_requests ''7'' ?qc = []" by simp
  ultimately show ?thesis
    using p q by (simp add: updateTaskStatus_request_def status_string_def)
qed

section \<open>Properties of the backend\<close>





text \<open>
  C6. Validation boundary and atomicity. A create request whose title or whose description
  is the empty string is answered with 400, the error \<open>Invalid data\<close> and a non-empty list
  of issues that names the empty field, and the store is returned as it was.
\<close>

theorem create_validation_atomic:
  assumes "get_prop b ''title'' = Some (JStr []) \<or> get_prop b ''description'' = Some (JStr [])"
  shows "\<exists>details. details \<noteq> []
      \<and> createTask_controller b s = (Response 400 (ErrorJson ''Invalid data'' (Some details)), s)
      \<and> (get_prop b ''title'' = Some (JStr []) \<longrightarrow>
            \<lparr>code = too_small, path = [''title'']\<rparr> \<in> set details)
      \<and> (get_prop b ''description'' = Some (JStr []) \<longrightarrow>
            \<lparr>code = too_small, path = [''description'']\<rparr> \<in> set details)"
proof (cases b)
  case (JObj kvs)
  define rt where "rt = z_string_min1 ''title'' (get_prop b ''title'')"
  define rd where "rd = z_string_min1 ''description'' (get_prop b ''description'')"
  define rs where "rs = z_status_default ''status'' (get_prop b ''status'')"
  define details where "details = issues_of rt @ issues_of rd @ issues_of rs"
  have t: "rt = Inl [\<lparr>code = too_small, path = [''title'']\<rparr>]"
    if "get_prop b ''title'' = Some (JStr [])"
    using that by (simp add: rt_def z_string_min1_def)
  have d: "rd = Inl [\<lparr>code = too_small, path = [''description'']\<rparr>]"
    if "get_prop b ''description'' = Some (JStr [])"
    using that by (simp add: rd_def z_string_min1_def)
  from assms have bad: "isl rt \<or> isl rd"
  proof
    assume "get_prop b ''title'' = Some (JStr [])"
    from t [OF this] show ?thesis by simp
  next
    assume "get_prop b ''description'' = Some (JStr [])"
    from d [OF this] show ?thesis by simp
  qed
  have "CreateTaskSchema_parse b
      = (if isl rt \<or> isl rd \<or> isl rs then Inl details
         else Inr \<lparr>ct_title = projr rt, ct_description = projr rd, ct_status = projr rs\<rparr>)"
    unfolding JObj CreateTaskSchema_parse_JObj Let_def rt_def rd_def rs_def details_def ..
  with bad have "CreateTaskSchema_parse b = Inl details"
    by presburger
  then have ctl: "createTask_controller b s
      = (Response 400 (ErrorJson ''Invalid data'' (Some details)), s)"
    by (simp add: createTask_controller_def)
  have it: "\<lparr>code = too_small, path = [''title'']\<rparr> \<in> set details"
    if "get_prop b ''title'' = Some (JStr [])"
    unfolding details_def t [OF that] by (simp add: issues_of_def)
  have id: "\<lparr>code = too_small, path = [''description'']\<rparr> \<in> set details"
    if "get_prop b ''description'' = Some (JStr [])"
    unfolding details_def d [OF that] by (simp add: issues_of_def)
  from assms it id have ne: "details \<noteq> []"
    by (metis empty_iff empty_set)
  show ?thesis
  proof (intro exI [of _ details] conjI impI)
    show "details \<noteq> []" by (rule ne)
    show "createTask_controller b s
      = (Response 400 (ErrorJson ''Invalid data'' (Some details)), s)" by (rule ctl)
  qed (use it id in blast)+
qed (use assms in simp_all)

theorem create_validation_atomic_witness:
  "get_prop (JObj [(''title'', JStr []), (''description'', JStr ''x'')]) ''title'' = Some (JStr [])
   \<and> createTask_controller (JObj [(''title'', JStr []), (''description'', JStr ''x'')]) initialService
      = (Response 400 (ErrorJson ''Invalid data'' (Some [\<lparr>code = too_small, path = [''title'']\<rparr>])),
         initialService)"
proof -
  let ?b = "JObj [(''title'', JStr []), (''description'', JStr ''x'')]"
  have h: "get_prop ?b ''title'' = Some (JStr []) \<or> get_prop ?b ''description'' = Some (JStr [])"
    by simp
  from create_validation_atomic [OF h, of initialService]
  have "snd (createTask_controller ?b initialService) = initialService"
    by auto
  then show ?thesis
    by (simp add: createTask_controller_def CreateTaskSchema_parse_def z_string_min1_def
          z_status_default_def issues_of_def)
qed

text \<open>
  C7. Delete contract. For an id that no stored task has, \<open>deleteTask\<close> returns false and
  the store is unchanged, and the controller answers 404. For an id that some task has, it
  returns true and takes out the first task with that id and nothing else, and the
  controller answers 200. In every store reachable from the initial one the ids are
  distinct, so there the task with that id is gone afterwards, and a second delete of the
  same id returns false and is answered with 404. The controller is reached with a
  non-empty id only.
\<close>

theorem delete_contract:
  "(i \<notin> task_id ` set (tasks s) \<longrightarrow>
      deleteTask i s = (False, s)
      \<and> (i \<noteq> [] \<longrightarrow>
           deleteTask_controller i s = (Response 404 (ErrorJson ''Task not found'' None), s)))
   \<and> (i \<in> task_id ` set (tasks s) \<longrightarrow>
      (\<exists>k<length (tasks s).
          task_id (tasks s ! k) = i \<and> (\<forall>j<k. task_id (tasks s ! j) \<noteq> i)
          \<and> deleteTask i s = (True, s\<lparr>tasks := take k (tasks s) @ drop (Suc k) (tasks s)\<rparr>)
          \<and> (i \<noteq> [] \<longrightarrow>
               deleteTask_controller i s
                 = (Response 200 (MessageJson ''Task deleted''),
                    s\<lparr>tasks := take k (tasks s) @ drop (Suc k) (tasks s)\<rparr>))))
   \<and> (i \<in> task_id ` set (tasks (run ops initialService)) \<longrightarrow>
      fst (deleteTask i (run ops initialService)) = True
      \<and> tasks (snd (deleteTask i (run ops initialService)))
          = filter (\<lambda>t. task_id t \<noteq> i) (tasks (run ops initialService))
      \<and> fst (deleteTask i (snd (deleteTask i (run ops initialService)))) = False
      \<and> statusCode (fst (deleteTask_controller i (run ops initialService))) = 200
      \<and> statusCode (fst (deleteTask_controller i
            (snd (deleteTask_controller i (run ops initialService))))) = 404)"
proof (intro conjI impI)
  assume a: "i \<notin> task_id ` set (tasks s)"
  then show "deleteTask i s = (False, s)" by (rule deleteTask_absent)
  assume "i \<noteq> []"
  with a show "deleteTask_controller i s = (Response 404 (ErrorJson ''Task not found'' None), s)"
    by (rule deleteTask_controller_absent)
next
  assume p: "i \<in> task_id ` set (tasks s)"
  let ?k = "nat (findIndex (\<lambda>task. task_id task = i) (tasks s))"
  note k = first_index [OF p]
  have del: "deleteTask i s = (True, s\<lparr>tasks := take ?k (tasks s) @ drop (Suc ?k) (tasks s)\<rparr>)"
    using deleteTask_present [OF p] by (simp add: splice1_def)
  have "i \<noteq> [] \<longrightarrow> deleteTask_controller i s
          = (Response 200 (MessageJson ''Task deleted''),
             s\<lparr>tasks := take ?k (tasks s) @ drop (Suc ?k) (tasks s)\<rparr>)"
    using deleteTask_controller_present [OF p] del by simp
  with k del show "\<exists>k<length (tasks s).
          task_id (tasks s ! k) = i \<and> (\<forall>j<k. task_id (tasks s ! j) \<noteq> i)
          \<and> deleteTask i s = (True, s\<lparr>tasks := take k (tasks s) @ drop (Suc k) (tasks s)\<rparr>)
          \<and> (i \<noteq> [] \<longrightarrow>
               deleteTask_controller i s
                 = (Response 200 (MessageJson ''Task deleted''),
                    s\<lparr>tasks := take k (tasks s) @ drop (Suc k) (tasks s)\<rparr>))"
    by blast
next
  let ?r = "run ops initialService"
  assume p: "i \<in> task_id ` set (tasks ?r)"
  have ne: "i \<noteq> []" using p by (rule run_ids_nonempty)
  note tw = deleteTask_twice [OF run_distinct p]
  show "fst (deleteTask i ?r) = True"
    using deleteTask_present [OF p] by simp
  show "tasks (snd (deleteTask i ?r)) = filter (\<lambda>t. task_id t \<noteq> i) (tasks ?r)"
    by (rule tw(1))
  show "fst (deleteTask i (snd (deleteTask i ?r))) = False"
    using tw(2) by simp
  show "statusCode (fst (deleteTask_controller i ?r)) = 200"
    using deleteTask_controller_present [OF p ne] by simp
  have "i \<notin> task_id ` set (tasks (snd (deleteTask i ?r)))"
    unfolding tw(1) by auto
  from deleteTask_controller_absent [OF this ne] deleteTask_controller_present [OF p ne]
  show "statusCode (fst (deleteTask_controller i (snd (deleteTask_controller i ?r)))) = 404"
    by simp
qed

theorem delete_contract_witness:
  "''1'' \<in> task_id ` set (tasks (run [] initialService))
   \<and> ''1'' \<noteq> []
   \<and> deleteTask ''1'' initialService = (True, \<lparr>tasks = [], nextId = 2\<rparr>)
   \<and> ''1'' \<notin> task_id ` set (tasks \<lparr>tasks = [], nextId = 2\<rparr>)
   \<and> deleteTask ''1'' \<lparr>tasks = [], nextId = 2\<rparr> = (False, \<lparr>tasks = [], nextId = 2\<rparr>)
   \<and> deleteTask_controller ''1'' \<lparr>tasks = [], nextId = 2\<rparr>
       = (Response 404 (ErrorJson ''Task not found'' None), \<lparr>tasks = [], nextId = 2\<rparr>)
   \<and> statusCode (fst (deleteTask_controller ''1''
         (snd (deleteTask_controller ''1'' (run [] initialService))))) = 404"
proof -
  have p: "''1'' \<in> task_id ` set (tasks (run [] initialService))"
    by (simp add: initialService_def)
  have d: "deleteTask ''1'' initialService = (True, \<lparr>tasks = [], nextId = 2\<rparr>)"
    by (simp add: deleteTask_def initialService_def splice1_def)
  from delete_contract [where i = "''1''" and s = "\<lparr>tasks = [], nextId = 2\<rparr>"
      and ops = "[]"] p d
  show ?thesis by simp
qed

text \<open>
  C8. Frame property of the status update. For an id that some stored task has and either
  status value, \<open>updateTaskStatus\<close> replaces the first task with that id by a copy with
  the new status and returns it; the length of the list, the ids, titles and descriptions
  at every position, and every task with another id are as before. For an id that no task
  has it returns nothing (404 from the controller) and the store is unchanged.
\<close>

theorem status_update_frame:
  "(i \<in> task_id ` set (tasks s) \<longrightarrow>
      (\<exists>k<length (tasks s).
          task_id (tasks s ! k) = i \<and> (\<forall>j<k. task_id (tasks s ! j) \<noteq> i)
          \<and> updateTaskStatus i \<lparr>ut_status = st\<rparr> s
              = (Some ((tasks s ! k)\<lparr>status := st\<rparr>),
                 s\<lparr>tasks := (tasks s)[k := (tasks s ! k)\<lparr>status := st\<rparr>]\<rparr>)
          \<and> (i \<noteq> [] \<longrightarrow>
               updateTaskStatus_controller i (JObj [(''status'', JStr (status_string st))]) s
                 = (Response 200 (TaskJson ((tasks s ! k)\<lparr>status := st\<rparr>)),
                    s\<lparr>tasks := (tasks s)[k := (tasks s ! k)\<lparr>status := st\<rparr>]\<rparr>))))
   \<and> (i \<notin> task_id ` set (tasks s) \<longrightarrow>
        updateTaskStatus i \<lparr>ut_status = st\<rparr> s = (None, s)
        \<and> (i \<noteq> [] \<longrightarrow>
             updateTaskStatus_controller i (JObj [(''status'', JStr (status_string st))]) s
               = (Response 404 (ErrorJson ''Task not found'' None), s)))
   \<and> length (tasks (snd (updateTaskStatus i \<lparr>ut_status = st\<rparr> s))) = length (tasks s)
   \<and> map task_id (tasks (snd (updateTaskStatus i \<lparr>ut_status = st\<rparr> s))) = map task_id (tasks s)
   \<and> map title (tasks (snd (updateTaskStatus i \<lparr>ut_status = st\<rparr> s))) = map title (tasks s)
   \<and> map description (tasks (snd (updateTaskStatus i \<lparr>ut_status = st\<rparr> s)))
       = map description (tasks s)
   \<and> (\<forall>j<length (tasks s). task_id (tasks s ! j) \<noteq> i \<longrightarrow>
         tasks (snd (updateTaskStatus i \<lparr>ut_status = st\<rparr> s)) ! j = tasks s ! j)"
proof -
  let ?u = "\<lparr>ut_status = st\<rparr>"
  let ?b = "JObj [(''status'', JStr (status_string st))]"
  have present: "\<exists>k<length (tasks s).
          task_id (tasks s ! k) = i \<and> (\<forall>j<k. task_id (tasks s ! j) \<noteq> i)
          \<and> updateTaskStatus i ?u s
              = (Some ((tasks s ! k)\<lparr>status := st\<rparr>),
                 s\<lparr>tasks := (tasks s)[k := (tasks s ! k)\<lparr>status := st\<rparr>]\<rparr>)
          \<and> (i \<noteq> [] \<longrightarrow>
               updateTaskStatus_controller i ?b s
                 = (Response 200 (TaskJson ((tasks s ! k)\<lparr>status := st\<rparr>)),
                    s\<lparr>tasks := (tasks s)[k := (tasks s ! k)\<lparr>status := st\<rparr>]\<rparr>))"
    if p: "i \<in> task_id ` set (tasks s)"
  proof -
    let ?k = "nat (findIndex (\<lambda>task. task_id task = i) (tasks s))"
    note k = first_index [OF p]
    have up: "updateTaskStatus i ?u s
              = (Some ((tasks s ! ?k)\<lparr>status := st\<rparr>),
                 s\<lparr>tasks := (tasks s)[?k := (tasks s ! ?k)\<lparr>status := st\<rparr>]\<rparr>)"
      using updateTaskStatus_present [OF p, of ?u] by simp
    have "i \<noteq> [] \<longrightarrow> updateTaskStatus_controller i ?b s
                 = (Response 200 (TaskJson ((tasks s ! ?k)\<lparr>status := st\<rparr>)),
                    s\<lparr>tasks := (tasks s)[?k := (tasks s ! ?k)\<lparr>status := st\<rparr>]\<rparr>)"
      by (simp add: updateTaskStatus_controller_def UpdateTaskSchema_valid up)
    with k up show ?thesis by blast
  qed
  have absent: "updateTaskStatus i ?u s = (None, s)
        \<and> (i \<noteq> [] \<longrightarrow> updateTaskStatus_controller i ?b s
               = (Response 404 (ErrorJson ''Task not found'' None), s))"
    if a: "i \<notin> task_id ` set (tasks s)"
    by (simp add: updateTaskStatus_controller_def UpdateTaskSchema_valid
          updateTaskStatus_absent [OF a])
  show ?thesis
    using present absent updateTaskStatus_fields [of i ?u s] updateTaskStatus_ids [of i ?u s]
      updateTaskStatus_others [of _ s i ?u]
    by blast
qed

theorem status_update_frame_witness:
  "''1'' \<in> task_id ` set (tasks initialService) \<and> ''1'' \<noteq> []
   \<and> updateTaskStatus_controller ''1'' (JObj [(''status'', JStr ''done'')]) initialService
       = (Response 200 (TaskJson \<lparr>task_id = ''1'', title = ''Sample Task'',
                                  description = ''This is a sample task'', status = Done\<rparr>),
          \<lparr>tasks = [\<lparr>task_id = ''1'', title = ''Sample Task'',
                      description = ''This is a sample task'', status = Done\<rparr>],
           nextId = 2\<rparr>)
   \<and> ''7'' \<notin> task_id ` set (tasks initialService)
   \<and> updateTaskStatus ''7'' \<lparr>ut_status = Done\<rparr> initialService = (None, initialService)"
proof -
  have p: "''1'' \<in> task_id ` set (tasks initialService)"
    and q: "''7'' \<notin> task_id ` set (tasks initialService)"
    by (simp_all add: initialService_def)
  have k: "k < length (tasks initialService) \<longleftrightarrow> k = 0" for k
    by (auto simp: initialService_def)
  from status_update_frame [where i = "''1''" and s = initialService and st = Done] p
  have "updateTaskStatus_controller ''1'' (JObj [(''status'', JStr ''done'')]) initialService
       = (Response 200 (TaskJson ((tasks initialService ! 0)\<lparr>status := Done\<rparr>)),
          initialService\<lparr>tasks := (tasks initialService)[0 := (tasks initialService ! 0)\<lparr>status := Done\<rparr>]\<rparr>)"
    by (auto simp: k status_string_def)
  moreover from status_update_frame [where i = "''7''" and s = initialService and st = Done] q
  have "updateTaskStatus ''7'' \<lparr>ut_status = Done\<rparr> initialService = (None, initialService)"
    by blast
  ultimately show ?thesis
    using p q by (simp add: initialService_def)
qed

text \<open>
  C9. Id uniqueness. From the initial store (the sample task with id \<open>1\<close>, counter 2) and
  after any sequence of create, update-status, full-update and delete operations, the ids
  of the stored tasks are pairwise distinct. The ids handed out along the run are the
  string forms of 2, 3, ... up to the counter, so none is handed out twice, deleted or
  not, and none is the sample's. The counter never decreases, and a create raises it by
  one. No operation changes the id of a stored task: a create appends, the two updates
  keep the list of ids as it is, a delete takes one task out or nothing.
\<close>

theorem id_uniqueness:
  "distinct (map task_id (tasks (run ops initialService)))
   \<and> assigned ops initialService = map toString [2 ..< nextId (run ops initialService)]
   \<and> distinct (''1'' # assigned ops initialService)
   \<and> nextId s \<le> nextId (apply_op op s)
   \<and> tasks (apply_op (Create d) s) = tasks s @ [fst (createTask d s)]
   \<and> task_id (fst (createTask d s)) = toString (nextId s)
   \<and> nextId (apply_op (Create d) s) = nextId s + 1
   \<and> map task_id (tasks (apply_op (UpdateStatus i u) s)) = map task_id (tasks s)
   \<and> map task_id (tasks (apply_op (Update i d) s)) = map task_id (tasks s)
   \<and> (tasks (apply_op (Delete i) s) = tasks s
        \<or> (\<exists>k<length (tasks s). tasks (apply_op (Delete i) s) = splice1 k (tasks s)))"
proof -
  have "assigned ops initialService = map toString [2 ..< nextId (run ops initialService)]"
    using assigned_run [of ops initialService] by (simp add: initialService_def)
  moreover have "tasks (apply_op (Create d) s) = tasks s @ [fst (createTask d s)]"
    "task_id (fst (createTask d s)) = toString (nextId s)"
    by (simp_all add: createTask_def Let_def)
  ultimately show ?thesis
    using run_distinct [of ops] assigned_distinct [of ops] nextId_step [of s op]
      updateTaskStatus_ids [of i u s] updateTask_ids [of i d s] delete_shape [of i s]
    by (simp add: nextId_other)
qed

theorem id_uniqueness_witness:
  "map task_id (tasks (run
      [Create \<lparr>ct_title = ''Buy milk'', ct_description = ''2%'', ct_status = Pending\<rparr>,
       Delete ''2'',
       Create \<lparr>ct_title = ''Buy milk'', ct_description = ''2%'', ct_status = Pending\<rparr>]
      initialService)) = [''1'', ''3'']
   \<and> ''1'' # assigned
      [Create \<lparr>ct_title = ''Buy milk'', ct_description = ''2%'', ct_status = Pending\<rparr>,
       Delete ''2'',
       Create \<lparr>ct_title = ''Buy milk'', ct_description = ''2%'', ct_status = Pending\<rparr>]
      initialService = [''1'', ''2'', ''3'']"
  using id_uniqueness [where ops =
      "[Create \<lparr>ct_title = ''Buy milk'', ct_description = ''2%'', ct_status = Pending\<rparr>,
        Delete ''2'',
        Create \<lparr>ct_title = ''Buy milk'', ct_description = ''2%'', ct_status = Pending\<rparr>]"
      and s = initialService and op = "Delete ''1''" and i = "''1''"
      and d = "\<lparr>ct_title = ''Buy milk'', ct_description = ''2%'', ct_status = Pending\<rparr>"
      and u = "\<lparr>ut_status = Done\<rparr>"]
  by (simp add: initialService_def createTask_def deleteTask_def splice1_def Let_def
        toString_2 toString_3)




end
